theory Spec2Isabelle
  imports Complex_Main "HOL-Library.Char_ord" "HOL-Library.List_Lexorder"
begin

section \<open>The content loader of the MagentaA11y MCP server\<close>

text \<open>
  A shallow embedding of \<^verbatim>\<open>src/content-loader.ts\<close>: the class \<^verbatim>\<open>ContentLoader\<close>,
  its data model and its public operations. JavaScript strings are modelled as
  \<^typ>\<open>string\<close> (lists of 8-bit characters), an optional property as an \<^typ>\<open>'a option\<close>,
  a thrown \<^verbatim>\<open>Error\<close> as the left summand of a sum, and the fields of \<^verbatim>\<open>this\<close> as a
  record that every operation reads and \<^verbatim>\<open>initialize\<close> returns updated.
\<close>

subsection \<open>Data model\<close>

text \<open>\<^verbatim>\<open>interface ContentItem\<close>. The property \<^verbatim>\<open>type\<close> is named \<open>item_type\<close> here.\<close>

record content_item =
  label :: string
  name :: string
  item_type :: "string option"
  generalNotes :: "string option"
  gherkin :: "string option"
  condensed :: "string option"
  criteria :: "string option"
  videos :: "string option"
  androidDeveloperNotes :: "string option"
  iosDeveloperNotes :: "string option"
  developerNotes :: "string option"
  categoryName :: "string option"
  categoryLabel :: "string option"

text \<open>\<^verbatim>\<open>interface ContentCategory\<close>; its \<^verbatim>\<open>label\<close> and \<^verbatim>\<open>name\<close> carry the prefix \<open>cat_\<close>.\<close>

record content_category =
  cat_label :: string
  cat_name :: string
  children :: "content_item list"

text \<open>
  \<^verbatim>\<open>interface ContentStructure\<close>, as \<^verbatim>\<open>JSON.parse\<close> delivers it: the cast
  \<^verbatim>\<open>as ContentStructure\<close> checks nothing, so a platform key of the document may be
  missing, and reading it then yields \<^verbatim>\<open>undefined\<close> (here \<open>None\<close>).
\<close>

record content_structure =
  web :: "content_category list option"
  native :: "content_category list option"
  how_to_test :: "content_category list option"

datatype platform = Web | Native

text \<open>\<^verbatim>\<open>this.content[platform]\<close>\<close>

definition platform_categories :: "content_structure \<Rightarrow> platform \<Rightarrow> content_category list option" where
  "platform_categories c p = (case p of Web \<Rightarrow> web c | Native \<Rightarrow> native c)"

text \<open>
  \<^verbatim>\<open>interface ComponentMetadata\<close>; \<^verbatim>\<open>name\<close> and \<^verbatim>\<open>platform\<close> carry the prefix \<open>m_\<close>.
  The interface marks the five flags optional; \<^verbatim>\<open>listComponents\<close>, the only producer
  of these objects, always writes them, so they are plain booleans here.
\<close>

record component_metadata =
  m_name :: string
  displayName :: string
  category :: string
  m_platform :: platform
  hasGherkin :: bool
  hasCondensed :: bool
  hasDeveloperNotes :: bool
  hasAndroidNotes :: bool
  hasIOSNotes :: bool

text \<open>\<^verbatim>\<open>interface SearchMatch\<close> and \<^verbatim>\<open>interface SearchResult\<close> (fields prefixed \<open>r_\<close>).\<close>

record search_match =
  field :: string
  snippet :: string

record search_result =
  r_component :: string
  r_displayName :: string
  r_category :: string
  r_categoryLabel :: string
  r_matches :: "search_match list"
  relevance :: real

text \<open>
  The format argument of \<^verbatim>\<open>getComponentContent\<close>, a union of five string literals,
  and the literal each one stands for.
\<close>

datatype format = Gherkin | Condensed | DeveloperNotes | AndroidDeveloperNotes | IosDeveloperNotes

fun format_name :: "format \<Rightarrow> string" where
  "format_name Gherkin = ''gherkin''"
| "format_name Condensed = ''condensed''"
| "format_name DeveloperNotes = ''developerNotes''"
| "format_name AndroidDeveloperNotes = ''androidDeveloperNotes''"
| "format_name IosDeveloperNotes = ''iosDeveloperNotes''"

text \<open>\<^verbatim>\<open>component[format]\<close>\<close>

fun format_field :: "format \<Rightarrow> content_item \<Rightarrow> string option" where
  "format_field Gherkin item = gherkin item"
| "format_field Condensed item = condensed item"
| "format_field DeveloperNotes item = developerNotes item"
| "format_field AndroidDeveloperNotes item = androidDeveloperNotes item"
| "format_field IosDeveloperNotes item = iosDeveloperNotes item"

text \<open>
  The errors of the loader. The source throws \<^verbatim>\<open>Error\<close> objects that differ in their
  message only:
  \<^item> \<open>NotInitialized\<close>: \<^verbatim>\<open>'Content not loaded'\<close> and \<^verbatim>\<open>'Search index not initialized'\<close>;
  \<^item> \<open>NotFound\<close>: \<^verbatim>\<open>'Component "..." not found'\<close>;
  \<^item> \<open>FormatUnavailable\<close>: \<^verbatim>\<open>'... content not available for component "..."'\<close>;
  \<^item> \<open>LoadError\<close>: \<^verbatim>\<open>'Failed to initialize content. ...'\<close>;
  \<^item> \<open>TypeError\<close>: the runtime's error on iterating or calling into \<^verbatim>\<open>undefined\<close>.
\<close>

datatype error = NotInitialized | NotFound | FormatUnavailable | LoadError | TypeError

text \<open>
  JavaScript truthiness of an optional string, as in \<^verbatim>\<open>!!item.gherkin\<close> and
  \<^verbatim>\<open>if (!content)\<close>: \<^verbatim>\<open>undefined\<close> and the empty string are falsy.
\<close>

fun truthy :: "string option \<Rightarrow> bool" where
  "truthy None = False"
| "truthy (Some t) = (t \<noteq> [])"

subsection \<open>The search library\<close>

text \<open>
  Fuse.js is an external library. An index keeps the documents and the options it was
  built with; a result carries the item and, when the options ask for them, a score and
  the matches (\<^verbatim>\<open>score?\<close>, \<^verbatim>\<open>matches?\<close>, and in a match \<^verbatim>\<open>key?\<close>, \<^verbatim>\<open>value?\<close>).
  The library's \<^verbatim>\<open>search(query, {limit})\<close> is a parameter of every operation that calls
  it: a function from the index, the query and the optional limit to the result list.
\<close>

record fuse_match =
  m_key :: "string option"
  m_value :: "string option"

record 'a fuse_result =
  item :: 'a
  refIndex :: nat
  score :: "real option"
  matches :: "fuse_match list option"

record 'a fuse_index =
  docs :: "'a list"
  fuse_keys :: "(string \<times> real) list"
  threshold :: real

type_synonym 'a fuse_search = "'a fuse_index \<Rightarrow> string \<Rightarrow> int option \<Rightarrow> 'a fuse_result list"

subsection \<open>The loader's state\<close>

record loader =
  content :: "content_structure option"
  webSearchIndex :: "content_item fuse_index option"
  nativeSearchIndex :: "content_item fuse_index option"
  indexed :: bool

text \<open>The field initialisers of the class: the state of \<^verbatim>\<open>new ContentLoader()\<close>.\<close>

definition new_loader :: loader where
  "new_loader = \<lparr>content = None, webSearchIndex = None, nativeSearchIndex = None, indexed = False\<rparr>"

subsection \<open>Initialization\<close>

text \<open>
  \<^verbatim>\<open>createSearchIndex\<close>: the nested loops flatten the platform's categories into one
  list of items, each annotated with its category, and hand it to \<^verbatim>\<open>new Fuse\<close>.
  Iterating a missing platform key throws a \<open>TypeError\<close>.
\<close>

definition index_record :: "content_category \<Rightarrow> content_item \<Rightarrow> content_item" where
  "index_record cat it = it\<lparr>categoryName := Some (cat_name cat), categoryLabel := Some (cat_label cat)\<rparr>"

definition createSearchIndex :: "loader \<Rightarrow> platform \<Rightarrow> error + content_item fuse_index" where
  "createSearchIndex s p =
     (case content s of
        None \<Rightarrow> Inl NotInitialized
      | Some c \<Rightarrow>
          (case platform_categories c p of
             None \<Rightarrow> Inl TypeError
           | Some categories \<Rightarrow>
               Inr \<lparr>docs = concat (map (\<lambda>cat. map (index_record cat) (children cat)) categories),
                    fuse_keys = [(''label'', 3/10), (''name'', 3/10), (''generalNotes'', 1/10),
                                 (''gherkin'', 1/10), (''condensed'', 1/10), (''developerNotes'', 1/10)],
                    threshold = 3/10\<rparr>))"

text \<open>
  What \<^verbatim>\<open>fs.readFile\<close> followed by \<^verbatim>\<open>JSON.parse\<close> comes to: the file cannot be read,
  its text is not JSON, or a document is parsed.
\<close>

datatype load_outcome = ReadFailed | ParseFailed | Parsed content_structure

text \<open>
  The effects of initialization that a caller cannot see in the state: \<open>ReadFile\<close> for a
  call of \<^verbatim>\<open>fs.readFile\<close>, \<open>BuildIndex p\<close> for a call of \<^verbatim>\<open>createSearchIndex(p)\<close>.
\<close>

datatype io_event = ReadFile | BuildIndex platform

text \<open>
  The body of \<^verbatim>\<open>initialize\<close> from the point where \<^verbatim>\<open>await fs.readFile(...)\<close> resumes.
  Each assignment to a field of \<^verbatim>\<open>this\<close> takes effect at once, so a later throw leaves
  the earlier assignments in place; the \<^verbatim>\<open>catch\<close> block rethrows every error as the one
  load error. After both indices are built both platform keys are arrays, so the two
  \<^verbatim>\<open>reduce\<close> calls and the log line that end the \<^verbatim>\<open>try\<close> block cannot throw.
\<close>

definition initialize_load :: "load_outcome \<Rightarrow> loader \<Rightarrow> (error + unit) \<times> loader \<times> io_event list" where
  "initialize_load src s =
     (case src of
        ReadFailed \<Rightarrow> (Inl LoadError, s, [])
      | ParseFailed \<Rightarrow> (Inl LoadError, s, [])
      | Parsed c \<Rightarrow>
          (let s1 = s\<lparr>content := Some c\<rparr> in
           case createSearchIndex s1 Web of
             Inl e \<Rightarrow> (Inl LoadError, s1, [BuildIndex Web])
           | Inr wi \<Rightarrow>
               (let s2 = s1\<lparr>webSearchIndex := Some wi\<rparr> in
                case createSearchIndex s2 Native of
                  Inl e \<Rightarrow> (Inl LoadError, s2, [BuildIndex Web, BuildIndex Native])
                | Inr ni \<Rightarrow>
                    (Inr (), s2\<lparr>nativeSearchIndex := Some ni, indexed := True\<rparr>,
                     [BuildIndex Web, BuildIndex Native]))))"

text \<open>
  \<^verbatim>\<open>initialize\<close>, run from call to completion: the guard \<^verbatim>\<open>if (this.indexed) return\<close>,
  then the read and the rest of the body.
\<close>

definition initialize :: "load_outcome \<Rightarrow> loader \<Rightarrow> (error + unit) \<times> loader \<times> io_event list" where
  "initialize src s =
     (if indexed s then (Inr (), s, [])
      else (case initialize_load src s of (r, s', ev) \<Rightarrow> (r, s', ReadFile # ev)))"

text \<open>
  Two calls of \<^verbatim>\<open>initialize\<close> with no \<^verbatim>\<open>await\<close> between them. An \<^verbatim>\<open>async\<close> function runs
  up to its first \<^verbatim>\<open>await\<close> when it is called, so both calls evaluate the guard and issue
  their read before either continuation runs; the continuations then run one after the
  other, the second on the state the first has left.
\<close>

definition initialize_overlapped ::
  "load_outcome \<Rightarrow> loader \<Rightarrow> ((error + unit) \<times> (error + unit)) \<times> loader \<times> io_event list" where
  "initialize_overlapped src s =
     (if indexed s then ((Inr (), Inr ()), s, [])
      else (case initialize_load src s of (r1, s1, ev1) \<Rightarrow>
              (case initialize_load src s1 of (r2, s2, ev2) \<Rightarrow>
                 ((r1, r2), s2, [ReadFile, ReadFile] @ ev1 @ ev2))))"

text \<open>Two calls, the second made after the first has settled.\<close>

definition initialize_sequential ::
  "load_outcome \<Rightarrow> loader \<Rightarrow> ((error + unit) \<times> (error + unit)) \<times> loader \<times> io_event list" where
  "initialize_sequential src s =
     (case initialize src s of (r1, s1, ev1) \<Rightarrow>
        (case initialize src s1 of (r2, s2, ev2) \<Rightarrow> ((r1, r2), s2, ev1 @ ev2)))"

subsection \<open>Listing and lookup\<close>

text \<open>The object literal that \<^verbatim>\<open>listComponents\<close> pushes for one item of one category.\<close>

definition component_metadata_of :: "platform \<Rightarrow> content_category \<Rightarrow> content_item \<Rightarrow> component_metadata" where
  "component_metadata_of p cat it =
     \<lparr>m_name = name it, displayName = label it, category = cat_name cat, m_platform = p,
      hasGherkin = truthy (gherkin it), hasCondensed = truthy (condensed it),
      hasDeveloperNotes = truthy (developerNotes it),
      hasAndroidNotes = truthy (androidDeveloperNotes it),
      hasIOSNotes = truthy (iosDeveloperNotes it)\<rparr>"

text \<open>
  \<^verbatim>\<open>listComponents\<close>. The test \<^verbatim>\<open>category && cat.name !== category\<close> skips a category
  only under a filter that is a non-empty string. \<^verbatim>\<open>Array.prototype.sort\<close> is stable, and
  \<^verbatim>\<open>localeCompare\<close> is the runtime's collation: it is a parameter here, the function
  \<open>collate\<close> from a string to its collation key in some linear order, so that
  \<^verbatim>\<open>a.localeCompare(b) <= 0\<close> is \<open>collate a \<le> collate b\<close>.
\<close>

definition skips_category :: "string option \<Rightarrow> content_category \<Rightarrow> bool" where
  "skips_category filt cat = (case filt of None \<Rightarrow> False | Some c \<Rightarrow> c \<noteq> [] \<and> cat_name cat \<noteq> c)"

definition listComponents ::
  "(string \<Rightarrow> 'k::linorder) \<Rightarrow> loader \<Rightarrow> platform \<Rightarrow> string option \<Rightarrow> error + component_metadata list" where
  "listComponents collate s p filt =
     (case content s of
        None \<Rightarrow> Inl NotInitialized
      | Some c \<Rightarrow>
          (case platform_categories c p of
             None \<Rightarrow> Inl TypeError
           | Some categories \<Rightarrow>
               Inr (sort_key (\<lambda>m. collate (m_name m))
                      (concat (map (\<lambda>cat. if skips_category filt cat then []
                                           else map (component_metadata_of p cat) (children cat))
                                 categories)))))"

text \<open>\<^verbatim>\<open>getCategories\<close>: the default \<^verbatim>\<open>sort()\<close> orders strings by their code units.\<close>

definition getCategories :: "loader \<Rightarrow> platform \<Rightarrow> error + string list" where
  "getCategories s p =
     (case content s of
        None \<Rightarrow> Inl NotInitialized
      | Some c \<Rightarrow>
          (case platform_categories c p of
             None \<Rightarrow> Inl TypeError
           | Some categories \<Rightarrow> Inr (sort (map cat_name categories))))"

text \<open>
  The loop of \<^verbatim>\<open>getComponent\<close>: the categories in order, in each the first child of
  the name asked for; the first category that has one returns.
\<close>

fun getComponent_loop :: "content_category list \<Rightarrow> string \<Rightarrow> content_item option" where
  "getComponent_loop [] componentName = None"
| "getComponent_loop (cat # categories) componentName =
     (case find (\<lambda>it. name it = componentName) (children cat) of
        Some component \<Rightarrow>
          Some (component\<lparr>categoryName := Some (cat_name cat), categoryLabel := Some (cat_label cat)\<rparr>)
      | None \<Rightarrow> getComponent_loop categories componentName)"

definition getComponent :: "loader \<Rightarrow> platform \<Rightarrow> string \<Rightarrow> error + content_item" where
  "getComponent s p componentName =
     (case content s of
        None \<Rightarrow> Inl NotInitialized
      | Some c \<Rightarrow>
          (case platform_categories c p of
             None \<Rightarrow> Inl TypeError
           | Some categories \<Rightarrow>
               (case getComponent_loop categories componentName of
                  None \<Rightarrow> Inl NotFound
                | Some component \<Rightarrow> Inr component)))"

definition getComponentContent :: "loader \<Rightarrow> platform \<Rightarrow> string \<Rightarrow> format \<Rightarrow> error + string" where
  "getComponentContent s p componentName fmt =
     (case getComponent s p componentName of
        Inl e \<Rightarrow> Inl e
      | Inr component \<Rightarrow>
          (case format_field fmt component of
             None \<Rightarrow> Inl FormatUnavailable
           | Some text \<Rightarrow> if text = [] then Inl FormatUnavailable else Inr text))"

text \<open>
  \<^verbatim>\<open>getAvailableFormats\<close>: the whole body stands in a \<^verbatim>\<open>try\<close> whose \<^verbatim>\<open>catch\<close> returns
  the empty array, so the result is never an error.
\<close>

definition getAvailableFormats ::
  "(string \<Rightarrow> 'k::linorder) \<Rightarrow> loader \<Rightarrow> platform \<Rightarrow> string \<Rightarrow> error + string list" where
  "getAvailableFormats collate s p componentName =
     (case listComponents collate s p None of
        Inl e \<Rightarrow> Inr []
      | Inr components \<Rightarrow>
          (case find (\<lambda>c. m_name c = componentName) components of
             None \<Rightarrow> Inr []
           | Some component \<Rightarrow>
               Inr ((if hasGherkin component then [''gherkin''] else []) @
                    (if hasCondensed component then [''condensed''] else []) @
                    (if hasDeveloperNotes component then [''developerNotes''] else []) @
                    (if hasAndroidNotes component then [''androidDeveloperNotes''] else []) @
                    (if hasIOSNotes component then [''iosDeveloperNotes''] else []))))"

subsection \<open>Search\<close>

text \<open>
  \<^verbatim>\<open>String.prototype.toLowerCase\<close> is the runtime's Unicode case mapping. It is a
  parameter of the operations that call it, the function \<open>toLowerCase\<close> from a string to
  its lower-cased form, of which nothing is assumed: it may fold any character and it
  may change the length of the string.
\<close>

text \<open>
  \<^verbatim>\<open>String.prototype.indexOf\<close>: the least position at which the second string starts in
  the first; \<open>None\<close> stands for the result \<^verbatim>\<open>-1\<close>.
\<close>

fun indexOf :: "string \<Rightarrow> string \<Rightarrow> nat option" where
  "indexOf [] q = (if q = [] then Some 0 else None)"
| "indexOf (c # cs) q =
     (if take (length q) (c # cs) = q then Some 0 else map_option Suc (indexOf cs q))"

text \<open>
  \<^verbatim>\<open>String.prototype.substring\<close> on indices that are not negative: both are cut at the
  length of the string, and they are swapped when the first is the greater.
\<close>

definition substring :: "string \<Rightarrow> nat \<Rightarrow> nat \<Rightarrow> string" where
  "substring t a b =
     (let a' = min a (length t); b' = min b (length t)
      in take (max a' b' - min a' b') (drop (min a' b') t))"

text \<open>
  \<^verbatim>\<open>extractSnippet\<close>; \<open>stop\<close> is the source's variable \<^verbatim>\<open>end\<close>. The index is found in
  the lower-cased text and then used as a position in the text itself.
\<close>

definition extractSnippet :: "(string \<Rightarrow> string) \<Rightarrow> string \<Rightarrow> string \<Rightarrow> nat \<Rightarrow> string" where
  "extractSnippet toLowerCase text query maxLength =
     (let queryLower = toLowerCase query;
          textLower = toLowerCase text
      in case indexOf textLower queryLower of
           None \<Rightarrow> substring text 0 maxLength
         | Some index \<Rightarrow>
             (let start = nat (max 0 (int index - 50));
                  stop = min (length text) (index + length query + 150);
                  snip = substring text start stop;
                  snip1 = (if start > 0 then ''...'' @ snip else snip);
                  snip2 = (if stop < length text then snip1 @ ''...'' else snip1)
              in snip2))"

text \<open>
  The callback of \<^verbatim>\<open>results.map\<close> in \<^verbatim>\<open>search\<close>: the matches that have both a value and
  a key become snippets, \<^verbatim>\<open>item.categoryName || ''\<close> reads an absent or empty category
  as the empty string, and \<^verbatim>\<open>result.score || 0\<close> reads an absent score as 0.
\<close>

definition or_empty :: "string option \<Rightarrow> string" where
  "or_empty x = (case x of None \<Rightarrow> [] | Some t \<Rightarrow> t)"

definition score_or_zero :: "'a fuse_result \<Rightarrow> real" where
  "score_or_zero r = (case score r of None \<Rightarrow> 0 | Some x \<Rightarrow> x)"

fun search_matches :: "(string \<Rightarrow> string) \<Rightarrow> string \<Rightarrow> fuse_match list \<Rightarrow> search_match list" where
  "search_matches toLowerCase query [] = []"
| "search_matches toLowerCase query (m # ms) =
     (case (m_value m, m_key m) of
        (Some v, Some k) \<Rightarrow>
          (if v \<noteq> [] \<and> k \<noteq> []
           then \<lparr>field = k, snippet = extractSnippet toLowerCase v query 200\<rparr>
                  # search_matches toLowerCase query ms
           else search_matches toLowerCase query ms)
      | _ \<Rightarrow> search_matches toLowerCase query ms)"

definition search_result_of ::
  "(string \<Rightarrow> string) \<Rightarrow> string \<Rightarrow> content_item fuse_result \<Rightarrow> search_result" where
  "search_result_of toLowerCase query r =
     \<lparr>r_component = name (item r), r_displayName = label (item r),
      r_category = or_empty (categoryName (item r)),
      r_categoryLabel = or_empty (categoryLabel (item r)),
      r_matches = (case matches r of None \<Rightarrow> []
                   | Some ms \<Rightarrow> search_matches toLowerCase query ms),
      relevance = 1 - score_or_zero r\<rparr>"

text \<open>
  \<^verbatim>\<open>search\<close>. The limit is a JavaScript number that the callers pass on unchecked
  (\<^verbatim>\<open>args.max_results || 10\<close>), so it is an integer here and may be negative.
\<close>

definition search ::
  "(string \<Rightarrow> string) \<Rightarrow> content_item fuse_search \<Rightarrow> loader \<Rightarrow> platform \<Rightarrow> string \<Rightarrow> int
     \<Rightarrow> error + search_result list" where
  "search toLowerCase fuse s p query maxResults =
     (case (if p = Web then webSearchIndex s else nativeSearchIndex s) of
        None \<Rightarrow> Inl NotInitialized
      | Some searchIndex \<Rightarrow>
          Inr (map (search_result_of toLowerCase query)
                 (fuse searchIndex query (Some maxResults))))"

text \<open>
  \<^verbatim>\<open>getSimilarComponents\<close>: a fresh index over the metadata, searched without a limit;
  \<^verbatim>\<open>slice(0, limit)\<close> counts a negative limit from the end of the array.
\<close>

definition slice0 :: "'a list \<Rightarrow> int \<Rightarrow> 'a list" where
  "slice0 xs l = (if 0 \<le> l then take (nat l) xs else take (nat (int (length xs) + l)) xs)"

definition getSimilarComponents ::
  "(string \<Rightarrow> 'k::linorder) \<Rightarrow> component_metadata fuse_search \<Rightarrow> loader \<Rightarrow> platform \<Rightarrow> string \<Rightarrow> int
     \<Rightarrow> error + string list" where
  "getSimilarComponents collate fuse s p componentName limit =
     (case listComponents collate s p None of
        Inl e \<Rightarrow> Inl e
      | Inr components \<Rightarrow>
          (let idx = \<lparr>docs = components, fuse_keys = [(''name'', 1), (''displayName'', 1)],
                      threshold = 1/2\<rparr>
           in Inr (map (\<lambda>r. m_name (item r)) (slice0 (fuse idx componentName None) limit))))"

subsection \<open>A small corpus\<close>

text \<open>
  A document in the input format, used to run the operations on concrete data: two web
  categories that both hold a component named \<open>button\<close>, and one native category.
\<close>

definition plain_item :: "string \<Rightarrow> string \<Rightarrow> content_item" where
  "plain_item n l =
     \<lparr>label = l, name = n, item_type = None, generalNotes = None, gherkin = None,
      condensed = None, criteria = None, videos = None, androidDeveloperNotes = None,
      iosDeveloperNotes = None, developerNotes = None, categoryName = None,
      categoryLabel = None\<rparr>"

definition example_button :: content_item where
  "example_button = (plain_item ''button'' ''Button'')
     \<lparr>gherkin := Some ''Given a button...'', developerNotes := Some []\<rparr>"

definition example_checkbox :: content_item where
  "example_checkbox = (plain_item ''checkbox'' ''Checkbox'')\<lparr>condensed := Some ''Test a checkbox''\<rparr>"

definition example_submit :: content_item where
  "example_submit = (plain_item ''button'' ''Submit button'')\<lparr>condensed := Some ''Test the submit button''\<rparr>"

definition example_switch :: content_item where
  "example_switch = (plain_item ''switch'' ''Switch'')\<lparr>androidDeveloperNotes := Some ''Use SwitchCompat''\<rparr>"

definition example_controls :: content_category where
  "example_controls =
     \<lparr>cat_label = ''Controls'', cat_name = ''controls'', children = [example_checkbox, example_button]\<rparr>"

definition example_forms :: content_category where
  "example_forms = \<lparr>cat_label = ''Forms'', cat_name = ''forms'', children = [example_submit]\<rparr>"

definition example_web :: "content_category list" where
  "example_web = [example_controls, example_forms]"

definition example_native :: "content_category list" where
  "example_native =
     [\<lparr>cat_label = ''Controls'', cat_name = ''controls'', children = [example_switch]\<rparr>]"

definition example_corpus :: content_structure where
  "example_corpus = \<lparr>web = Some example_web, native = Some example_native, how_to_test = Some []\<rparr>"

text \<open>The same document without its \<^verbatim>\<open>native\<close> key.\<close>

definition example_corpus_no_native :: content_structure where
  "example_corpus_no_native = \<lparr>web = Some example_web, native = None, how_to_test = Some []\<rparr>"

text \<open>The loader after \<^verbatim>\<open>initialize\<close> on each of the two documents.\<close>

definition example_loader :: loader where
  "example_loader = fst (snd (initialize (Parsed example_corpus) new_loader))"

definition example_loader_no_native :: loader where
  "example_loader_no_native = fst (snd (initialize (Parsed example_corpus_no_native) new_loader))"

text \<open>
  A stand-in for the library's search that matches every document with the score
  \<open>1/4\<close> and cuts the list at a limit that is not negative.
\<close>

definition example_fuse :: "'a fuse_search" where
  "example_fuse idx q limit =
     (let rs = map (\<lambda>d. \<lparr>item = d, refIndex = 0, score = Some (1/4), matches = None\<rparr>) (docs idx)
      in case limit of None \<Rightarrow> rs | Some l \<Rightarrow> if 0 \<le> l then take (nat l) rs else rs)"



text \<open>
  A case mapping to run the snippet extraction with: the letters A to Z map to a to z
  and every other character to itself. On texts of ASCII characters this is what
  \<^verbatim>\<open>String.prototype.toLowerCase\<close> computes.
\<close>

definition example_lower_char :: "char \<Rightarrow> char" where
  "example_lower_char c =
     (let n = (of_char c :: nat) in if 65 \<le> n \<and> n \<le> 90 then char_of (n + 32) else c)"

definition example_lower :: "string \<Rightarrow> string" where
  "example_lower t = map example_lower_char t"

text \<open>
  A case mapping that changes lengths, as the runtime's does for a few characters: it
  doubles every \<open>I\<close> and leaves the rest.
\<close>

definition example_lower_doubling :: "string \<Rightarrow> string" where
  "example_lower_doubling t = concat (map (\<lambda>c. if c = CHR ''I'' then ''ii'' else [c]) t)"

text \<open>
  A corpus in which a second component shadows the name of a first: both are named
  \<open>dup\<close>; the first, in category \<open>a\<close>, has a scenario text, the second, in category \<open>b\<close>,
  holds the empty string in that field.
\<close>

definition example_dup_first :: content_item where
  "example_dup_first = (plain_item ''dup'' ''First'')\<lparr>gherkin := Some ''g''\<rparr>"

definition example_dup_second :: content_item where
  "example_dup_second = (plain_item ''dup'' ''Second'')\<lparr>gherkin := Some []\<rparr>"

definition example_cat_a :: content_category where
  "example_cat_a = \<lparr>cat_label = ''A'', cat_name = ''a'', children = [example_dup_first]\<rparr>"

definition example_cat_b :: content_category where
  "example_cat_b = \<lparr>cat_label = ''B'', cat_name = ''b'', children = [example_dup_second]\<rparr>"

definition example_corpus_dup :: content_structure where
  "example_corpus_dup =
     \<lparr>web = Some [example_cat_a, example_cat_b], native = Some [], how_to_test = Some []\<rparr>"

definition example_loader_dup :: loader where
  "example_loader_dup = fst (snd (initialize (Parsed example_corpus_dup) new_loader))"

section \<open>Properties\<close>

subsection \<open>Auxiliary facts\<close>

lemma find_SomeD: "find P xs = Some x \<Longrightarrow> P x \<and> x \<in> set xs"
  by (induction xs) (auto split: if_splits)

lemma find_filter_conv: "find P xs = (case filter P xs of [] \<Rightarrow> None | x # _ \<Rightarrow> Some x)"
  by (induction xs) auto

lemma find_append_conv:
  "find P (xs @ ys) = (case find P xs of None \<Rightarrow> find P ys | Some x \<Rightarrow> Some x)"
  by (induction xs) auto

lemma find_map_conv: "find P (map f xs) = map_option f (find (\<lambda>x. P (f x)) xs)"
  by (induction xs) auto

text \<open>A stable sort keeps the first element of a given name where it was.\<close>

lemma filter_sort_key_same:
  assumes "\<And>x. P x \<Longrightarrow> f x = k"
  shows "filter P (sort_key f xs) = filter P xs"
proof -
  have "filter P (sort_key f xs) = filter P (filter (\<lambda>y. f y = k) (sort_key f xs))"
    using assms by (auto intro: filter_cong)
  also have "\<dots> = filter P (filter (\<lambda>y. f y = k) xs)"
    by (simp only: sort_key_stable)
  also have "\<dots> = filter P xs"
    using assms by (auto intro: filter_cong)
  finally show ?thesis .
qed

lemma find_sort_key_same:
  assumes "\<And>x. P x \<Longrightarrow> f x = k"
  shows "find P (sort_key f xs) = find P xs"
  by (simp add: find_filter_conv filter_sort_key_same [OF assms])

text \<open>The loop of \<^verbatim>\<open>getComponent\<close>.\<close>

lemma getComponent_loop_None_iff:
  "getComponent_loop cats n = None \<longleftrightarrow>
     (\<forall>cat \<in> set cats. \<forall>it \<in> set (children cat). name it \<noteq> n)"
  by (induction cats) (auto simp: find_None_iff split: option.splits dest: find_SomeD)

lemma getComponent_loop_name: "getComponent_loop cats n = Some r \<Longrightarrow> name r = n"
  by (induction cats) (auto split: option.splits dest: find_SomeD)

lemma getComponent_loop_first:
  assumes "\<forall>cat \<in> set pre. \<forall>it \<in> set (children cat). name it \<noteq> n"
  shows "getComponent_loop (pre @ cat # post) n =
     (case find (\<lambda>it. name it = n) (children cat) of
        Some component \<Rightarrow>
          Some (component\<lparr>categoryName := Some (cat_name cat), categoryLabel := Some (cat_label cat)\<rparr>)
      | None \<Rightarrow> getComponent_loop post n)"
  using assms
proof (induction pre)
  case Nil
  show ?case by simp
next
  case (Cons c pre)
  then have "find (\<lambda>it. name it = n) (children c) = None"
    by (simp add: find_None_iff)
  with Cons show ?case by simp
qed



text \<open>The example loader, computed.\<close>

lemma example_loader_fields:
  "content example_loader = Some example_corpus"
  "indexed example_loader"
  "platform_categories example_corpus Web = Some example_web"
  "platform_categories example_corpus Native = Some example_native"
  by (simp_all add: example_loader_def initialize_def initialize_load_def new_loader_def
      createSearchIndex_def platform_categories_def example_corpus_def)

text \<open>
  What a successful \<^verbatim>\<open>initialize\<close> on a fresh loader establishes: the document is stored
  with both platform keys present, both indices are built and the flag is set. These are
  the hypotheses under which the query operations are studied below.
\<close>

lemma initialize_ready:
  assumes "initialize src new_loader = (Inr (), s, ev)"
  shows "\<exists>c w n wi ni. src = Parsed c \<and> content s = Some c
           \<and> platform_categories c Web = Some w \<and> platform_categories c Native = Some n
           \<and> webSearchIndex s = Some wi \<and> nativeSearchIndex s = Some ni \<and> indexed s"
  using assms
  by (cases src)
    (auto simp: initialize_def initialize_load_def new_loader_def createSearchIndex_def
      platform_categories_def Let_def split: option.splits)

subsection \<open>Lookup by name\<close>

text \<open>
  C2. Once the corpus is loaded, for a platform \<open>p\<close> whose categories are \<open>cats\<close> and any
  name \<open>n\<close>: \<^verbatim>\<open>getComponent(p, n)\<close> succeeds exactly when some category of \<open>p\<close> holds a
  component named \<open>n\<close>; the record it returns has the name \<open>n\<close>, and when no category
  holds such a component it fails with \<open>NotFound\<close>.
\<close>

theorem getComponent_succeeds_iff_present:
  assumes "content s = Some c" and "platform_categories c p = Some cats"
  shows "if \<exists>cat \<in> set cats. \<exists>it \<in> set (children cat). name it = n
         then \<exists>r. getComponent s p n = Inr r \<and> name r = n
         else getComponent s p n = Inl NotFound"
proof (cases "getComponent_loop cats n")
  case None
  then show ?thesis
    using assms getComponent_loop_None_iff [of cats n] by (simp add: getComponent_def)
next
  case (Some r)
  then have "\<not> (\<forall>cat \<in> set cats. \<forall>it \<in> set (children cat). name it \<noteq> n)"
    using getComponent_loop_None_iff [of cats n] by simp
  moreover have "name r = n"
    using Some by (rule getComponent_loop_name)
  ultimately show ?thesis
    using assms Some by (auto simp: getComponent_def)
qed

theorem getComponent_succeeds_iff_present_witness:
  "content example_loader = Some example_corpus
   \<and> platform_categories example_corpus Web = Some example_web
   \<and> (\<exists>r. getComponent example_loader Web ''checkbox'' = Inr r \<and> name r = ''checkbox'')
   \<and> getComponent example_loader Web ''missing-button'' = Inl NotFound"
proof -
  have c: "content example_loader = Some example_corpus"
    and w: "platform_categories example_corpus Web = Some example_web"
    by (rule example_loader_fields)+
  have "\<exists>cat \<in> set example_web. \<exists>it \<in> set (children cat). name it = ''checkbox''"
    by (simp add: example_web_def example_controls_def example_checkbox_def plain_item_def)
  then have 1: "\<exists>r. getComponent example_loader Web ''checkbox'' = Inr r \<and> name r = ''checkbox''"
    using getComponent_succeeds_iff_present [OF c w, of "''checkbox''"] by simp
  have "\<not> (\<exists>cat \<in> set example_web. \<exists>it \<in> set (children cat). name it = ''missing-button'')"
    by (simp add: example_web_def example_controls_def example_forms_def example_checkbox_def
        example_button_def example_submit_def plain_item_def)
  then have 2: "getComponent example_loader Web ''missing-button'' = Inl NotFound"
    using getComponent_succeeds_iff_present [OF c w, of "''missing-button''"] by simp
  from c w 1 2 show ?thesis by simp
qed

text \<open>
  C9, as stated, fails. In the example corpus the web categories \<open>controls\<close> and \<open>forms\<close>,
  in this order, both hold a component named \<open>button\<close>; \<^verbatim>\<open>getComponent\<close> returns the
  one of \<open>controls\<close>, the first category, and not the one of \<open>forms\<close>, the last.
\<close>

theorem getComponent_last_category_counterexample:
  "getComponent example_loader Web ''button''
     = Inr (example_button\<lparr>categoryName := Some ''controls'', categoryLabel := Some ''Controls''\<rparr>)
   \<and> getComponent example_loader Web ''button''
     \<noteq> Inr (example_submit\<lparr>categoryName := Some ''forms'', categoryLabel := Some ''Forms''\<rparr>)"
  by code_simp

text \<open>
  C9, amended. When a component name \<open>n\<close> appears in more than one category of a
  platform, the first match wins: \<^verbatim>\<open>getComponent(p, n)\<close> returns the record of the first
  category, in the platform's category order, that holds a component named \<open>n\<close>, and
  within that category the first child of that name, annotated with the name and
  label of that category.
\<close>

theorem getComponent_first_category:
  assumes "content s = Some c"
    and "platform_categories c p = Some (pre @ cat # post)"
    and "\<forall>cat' \<in> set pre. \<forall>it \<in> set (children cat'). name it \<noteq> n"
    and "children cat = before @ component # after"
    and "\<forall>it \<in> set before. name it \<noteq> n"
    and "name component = n"
  shows "getComponent s p n =
     Inr (component\<lparr>categoryName := Some (cat_name cat), categoryLabel := Some (cat_label cat)\<rparr>)"
proof -
  have "find (\<lambda>it. name it = n) before = None"
    using assms(5) by (simp add: find_None_iff)
  then have "find (\<lambda>it. name it = n) (children cat) = Some component"
    using assms(4,6) by (simp add: find_append_conv)
  then show ?thesis
    using assms(1,2) getComponent_loop_first [OF assms(3), of cat post]
    by (simp add: getComponent_def)
qed

theorem getComponent_first_category_witness:
  "getComponent example_loader Web ''button'' =
     Inr (example_button\<lparr>categoryName := Some ''controls'', categoryLabel := Some ''Controls''\<rparr>)"
proof -
  have c: "content example_loader = Some example_corpus"
    by (rule example_loader_fields)
  have w: "platform_categories example_corpus Web = Some ([] @ example_controls # [example_forms])"
    using example_loader_fields(3) by (simp add: example_web_def)
  have pre: "\<forall>cat' \<in> set ([] :: content_category list). \<forall>it \<in> set (children cat'). name it \<noteq> ''button''"
    by simp
  have ch: "children example_controls = [example_checkbox] @ example_button # []"
    by (simp add: example_controls_def)
  have bf: "\<forall>it \<in> set [example_checkbox]. name it \<noteq> ''button''"
    by (simp add: example_checkbox_def plain_item_def)
  have nm: "name example_button = ''button''"
    by (simp add: example_button_def plain_item_def)
  show ?thesis
    using getComponent_first_category [OF c w pre ch bf nm] by (simp add: example_controls_def)
qed

subsection \<open>Listing\<close>

text \<open>
  C7. Once the corpus is loaded, \<^verbatim>\<open>listComponents(p)\<close> with no category filter returns
  a list that is sorted ascending by component name, in the order of \<^verbatim>\<open>localeCompare\<close>,
  and whose length is the number of components summed over all categories of \<open>p\<close>.
\<close>

theorem listComponents_sorted_complete:
  assumes "content s = Some c" and "platform_categories c p = Some cats"
  shows "\<exists>ms. listComponents collate s p None = Inr ms
           \<and> sorted (map (\<lambda>m. collate (m_name m)) ms)
           \<and> length ms = sum_list (map (\<lambda>cat. length (children cat)) cats)"
proof -
  have "length (concat (map (\<lambda>cat. map (component_metadata_of p cat) (children cat)) cats))
        = sum_list (map (\<lambda>cat. length (children cat)) cats)"
    by (simp add: length_concat comp_def)
  then show ?thesis
    using assms by (simp add: listComponents_def skips_category_def)
qed

theorem listComponents_sorted_complete_witness:
  "content example_loader = Some example_corpus
   \<and> platform_categories example_corpus Web = Some example_web
   \<and> (\<exists>ms. listComponents (\<lambda>x. x) example_loader Web None = Inr ms
        \<and> sorted (map (\<lambda>m. m_name m) ms) \<and> length ms = 3)"
proof -
  have c: "content example_loader = Some example_corpus"
    and w: "platform_categories example_corpus Web = Some example_web"
    by (rule example_loader_fields)+
  have "sum_list (map (\<lambda>cat. length (children cat)) example_web) = 3"
    by (simp add: example_web_def example_controls_def example_forms_def)
  then show ?thesis
    using listComponents_sorted_complete [OF c w, of "\<lambda>x. x"] c w by simp
qed

subsection \<open>Formats\<close>

text \<open>
  With the corpus loaded, \<^verbatim>\<open>getAvailableFormats\<close> and \<^verbatim>\<open>getComponent\<close> look at the same
  component: the stable sort of \<^verbatim>\<open>listComponents\<close> keeps the first entry of a name first.
\<close>

lemma listComponents_loaded:
  assumes "content s = Some c" and "platform_categories c p = Some cats"
  shows "listComponents collate s p None =
     Inr (sort_key (\<lambda>m. collate (m_name m))
            (concat (map (\<lambda>cat. map (component_metadata_of p cat) (children cat)) cats)))"
  using assms by (simp add: listComponents_def skips_category_def)

lemma find_listed_unsorted:
  "find (\<lambda>m. m_name m = n) (sort_key (\<lambda>m. collate (m_name m)) ms) = find (\<lambda>m. m_name m = n) ms"
  by (rule find_sort_key_same [where k = "collate n"]) simp

lemma find_metadata_loop:
  "find (\<lambda>m. m_name m = n)
        (concat (map (\<lambda>cat. map (component_metadata_of p cat) (children cat)) cats))
   = (case getComponent_loop cats n of
        None \<Rightarrow> None
      | Some r \<Rightarrow>
          Some \<lparr>m_name = n, displayName = label r, category = or_empty (categoryName r),
                m_platform = p,
                hasGherkin = truthy (gherkin r), hasCondensed = truthy (condensed r),
                hasDeveloperNotes = truthy (developerNotes r),
                hasAndroidNotes = truthy (androidDeveloperNotes r),
                hasIOSNotes = truthy (iosDeveloperNotes r)\<rparr>)"
proof (induction cats)
  case Nil
  show ?case by simp
next
  case (Cons cat cats)
  show ?case
  proof (cases "find (\<lambda>it. name it = n) (children cat)")
    case None
    then show ?thesis
      using Cons by (simp add: find_append_conv find_map_conv component_metadata_of_def)
  next
    case (Some it)
    then have "name it = n"
      by (auto dest: find_SomeD)
    then show ?thesis
      using Some
      by (simp add: find_append_conv find_map_conv component_metadata_of_def or_empty_def)
  qed
qed

lemma format_name_in_formats:
  "format_name f \<in> set ((if g then [''gherkin''] else []) @
                          (if c then [''condensed''] else []) @
                          (if d then [''developerNotes''] else []) @
                          (if a then [''androidDeveloperNotes''] else []) @
                          (if i then [''iosDeveloperNotes''] else []))
   \<longleftrightarrow> (case f of Gherkin \<Rightarrow> g | Condensed \<Rightarrow> c | DeveloperNotes \<Rightarrow> d
         | AndroidDeveloperNotes \<Rightarrow> a | IosDeveloperNotes \<Rightarrow> i)"
  by (cases f) simp_all

lemma getAvailableFormats_loaded:
  assumes "content s = Some c" and "platform_categories c p = Some cats"
  shows "\<exists>fs. getAvailableFormats collate s p n = Inr fs \<and>
          (\<forall>f. format_name f \<in> set fs \<longleftrightarrow>
             (case getComponent_loop cats n of None \<Rightarrow> False
              | Some r \<Rightarrow> truthy (format_field f r)))"
proof (cases "getComponent_loop cats n")
  case None
  then show ?thesis
    using listComponents_loaded [OF assms, of collate]
    by (simp add: getAvailableFormats_def find_listed_unsorted find_metadata_loop)
next
  case (Some r)
  have "format_name f \<in> set ((if truthy (gherkin r) then [''gherkin''] else []) @
                          (if truthy (condensed r) then [''condensed''] else []) @
                          (if truthy (developerNotes r) then [''developerNotes''] else []) @
                          (if truthy (androidDeveloperNotes r) then [''androidDeveloperNotes''] else []) @
                          (if truthy (iosDeveloperNotes r) then [''iosDeveloperNotes''] else []))
        \<longleftrightarrow> truthy (format_field f r)" for f
    unfolding format_name_in_formats by (cases f) simp_all
  then show ?thesis
    using Some listComponents_loaded [OF assms, of collate]
    by (simp add: getAvailableFormats_def find_listed_unsorted find_metadata_loop)
qed

lemma truthy_iff: "truthy x \<longleftrightarrow> (\<exists>t. x = Some t \<and> t \<noteq> [])"
  by (cases x) auto

text \<open>
  C3. For a platform \<open>p\<close> of the loaded corpus, a component name \<open>n\<close> present in \<open>p\<close> and
  a format \<open>f\<close>: if \<open>f\<close> is among \<^verbatim>\<open>getAvailableFormats(p, n)\<close> then
  \<^verbatim>\<open>getComponentContent(p, n, f)\<close> succeeds with a non-empty text, and if it is not then
  \<^verbatim>\<open>getComponentContent(p, n, f)\<close> fails with \<open>FormatUnavailable\<close>, not with \<open>NotFound\<close>.
\<close>

theorem formats_round_trip:
  assumes "content s = Some c" and "platform_categories c p = Some cats"
    and "\<exists>cat \<in> set cats. \<exists>it \<in> set (children cat). name it = n"
  shows "\<exists>fs. getAvailableFormats collate s p n = Inr fs \<and>
           (if format_name f \<in> set fs
            then \<exists>t. getComponentContent s p n f = Inr t \<and> t \<noteq> []
            else getComponentContent s p n f = Inl FormatUnavailable)"
proof -
  obtain r where r: "getComponent_loop cats n = Some r"
    using assms(3) getComponent_loop_None_iff [of cats n] by (cases "getComponent_loop cats n") auto
  obtain fs where fs: "getAvailableFormats collate s p n = Inr fs"
    and mem: "format_name f \<in> set fs \<longleftrightarrow> truthy (format_field f r)"
    using getAvailableFormats_loaded [OF assms(1,2), of collate n] r by auto
  have g: "getComponent s p n = Inr r"
    using assms(1,2) r by (simp add: getComponent_def)
  have "if truthy (format_field f r)
        then \<exists>t. getComponentContent s p n f = Inr t \<and> t \<noteq> []
        else getComponentContent s p n f = Inl FormatUnavailable"
    using g by (cases "format_field f r") (simp_all add: getComponentContent_def)
  with fs mem show ?thesis by simp
qed

theorem formats_round_trip_witness:
  "(\<exists>fs. getAvailableFormats (\<lambda>x. x) example_loader Web ''button'' = Inr fs
      \<and> format_name Gherkin \<in> set fs \<and> format_name DeveloperNotes \<notin> set fs)
   \<and> (\<exists>t. getComponentContent example_loader Web ''button'' Gherkin = Inr t \<and> t \<noteq> [])
   \<and> getComponentContent example_loader Web ''button'' DeveloperNotes = Inl FormatUnavailable"
proof -
  have c: "content example_loader = Some example_corpus"
    and w: "platform_categories example_corpus Web = Some example_web"
    by (rule example_loader_fields)+
  have ex: "\<exists>cat \<in> set example_web. \<exists>it \<in> set (children cat). name it = ''button''"
    by (simp add: example_web_def example_controls_def example_button_def plain_item_def)
  have fs: "getAvailableFormats (\<lambda>x. x) example_loader Web ''button'' = Inr [''gherkin'']"
    by code_simp
  show ?thesis
    using formats_round_trip [OF c w ex, of "\<lambda>x. x" Gherkin]
      formats_round_trip [OF c w ex, of "\<lambda>x. x" DeveloperNotes] fs
    by simp
qed

lemma format_field_annotated:
  "format_field f (it\<lparr>categoryName := a, categoryLabel := b\<rparr>) = format_field f it"
  by (cases f) simp_all

lemma getComponent_loop_first_item:
  assumes "\<forall>cat' \<in> set pre. \<forall>it' \<in> set (children cat'). name it' \<noteq> n"
    and "children cat = before @ it # after"
    and "\<forall>it' \<in> set before. name it' \<noteq> n"
    and "name it = n"
  shows "getComponent_loop (pre @ cat # post) n =
     Some (it\<lparr>categoryName := Some (cat_name cat), categoryLabel := Some (cat_label cat)\<rparr>)"
proof -
  have "find (\<lambda>it'. name it' = n) before = None"
    using assms(3) by (simp add: find_None_iff)
  then have "find (\<lambda>it'. name it' = n) (children cat) = Some it"
    using assms(2,4) by (simp add: find_append_conv)
  then show ?thesis
    using getComponent_loop_first [OF assms(1), of cat post] by simp
qed

text \<open>
  C10, as stated, fails for a component whose name an earlier component of the platform
  bears as well. In the corpus with two components named \<open>dup\<close>, the second holds the
  empty string as its scenario text and \<^verbatim>\<open>listComponents\<close> reports that field as absent;
  yet \<^verbatim>\<open>getAvailableFormats\<close> for its name includes \<open>gherkin\<close>, from the first.
\<close>

theorem shadowed_empty_field_counterexample:
  "gherkin example_dup_second = Some []
   \<and> map_sum id (map (\<lambda>m. (displayName m, hasGherkin m)))
        (listComponents (\<lambda>x. x) example_loader_dup Web None)
       = Inr [(''First'', True), (''Second'', False)]
   \<and> getAvailableFormats (\<lambda>x. x) example_loader_dup Web (name example_dup_second)
       = Inr [''gherkin'']"
  by code_simp

text \<open>
  C10, amended. For every component of a platform of the loaded corpus,
  \<^verbatim>\<open>listComponents\<close> lists the entry built from it, and lists nothing else; in that entry
  each of the five presence flags is true exactly when the corresponding field is
  present and is a non-empty string, so a field that holds the empty string is reported
  as absent. \<^verbatim>\<open>getAvailableFormats(p, n)\<close> reads the first component named \<open>n\<close> in the
  platform, the one that \<^verbatim>\<open>getComponent(p, n)\<close> returns: it names a format exactly when
  that field of that component is present and non-empty. So an empty field is excluded
  from \<^verbatim>\<open>getAvailableFormats\<close> for every component that no earlier component of the
  platform shares its name with.
\<close>

theorem presence_flags:
  assumes "content s = Some c" and "platform_categories c p = Some cats"
  shows "\<exists>ms fs. listComponents collate s p None = Inr ms
     \<and> (\<forall>m \<in> set ms. \<exists>cat \<in> set cats. \<exists>it \<in> set (children cat).
           m = component_metadata_of p cat it)
     \<and> (\<forall>cat \<in> set cats. \<forall>it \<in> set (children cat). component_metadata_of p cat it \<in> set ms)
     \<and> (\<forall>cat it.
           (hasGherkin (component_metadata_of p cat it) \<longleftrightarrow> (\<exists>t. gherkin it = Some t \<and> t \<noteq> []))
         \<and> (hasCondensed (component_metadata_of p cat it) \<longleftrightarrow> (\<exists>t. condensed it = Some t \<and> t \<noteq> []))
         \<and> (hasDeveloperNotes (component_metadata_of p cat it)
              \<longleftrightarrow> (\<exists>t. developerNotes it = Some t \<and> t \<noteq> []))
         \<and> (hasAndroidNotes (component_metadata_of p cat it)
              \<longleftrightarrow> (\<exists>t. androidDeveloperNotes it = Some t \<and> t \<noteq> []))
         \<and> (hasIOSNotes (component_metadata_of p cat it)
              \<longleftrightarrow> (\<exists>t. iosDeveloperNotes it = Some t \<and> t \<noteq> [])))
     \<and> getAvailableFormats collate s p n = Inr fs
     \<and> (\<forall>f r. getComponent s p n = Inr r \<longrightarrow>
           (format_name f \<in> set fs \<longleftrightarrow> (\<exists>t. format_field f r = Some t \<and> t \<noteq> [])))
     \<and> (\<forall>f pre cat post before it after.
           cats = pre @ cat # post \<and> children cat = before @ it # after \<and> name it = n
           \<and> (\<forall>cat' \<in> set pre. \<forall>it' \<in> set (children cat'). name it' \<noteq> n)
           \<and> (\<forall>it' \<in> set before. name it' \<noteq> n)
           \<longrightarrow> (format_name f \<in> set fs \<longleftrightarrow> (\<exists>t. format_field f it = Some t \<and> t \<noteq> [])))"
proof -
  let ?flat = "concat (map (\<lambda>cat. map (component_metadata_of p cat) (children cat)) cats)"
  let ?ms = "sort_key (\<lambda>m. collate (m_name m)) ?flat"
  have l: "listComponents collate s p None = Inr ?ms"
    by (rule listComponents_loaded [OF assms])
  have s: "set ?ms = (\<Union>cat \<in> set cats. component_metadata_of p cat ` set (children cat))"
    by simp
  have a: "\<forall>m \<in> set ?ms. \<exists>cat \<in> set cats. \<exists>it \<in> set (children cat).
           m = component_metadata_of p cat it"
    unfolding s by blast
  have b: "\<forall>cat \<in> set cats. \<forall>it \<in> set (children cat). component_metadata_of p cat it \<in> set ?ms"
    unfolding s by blast
  have fl: "\<forall>cat it.
           (hasGherkin (component_metadata_of p cat it) \<longleftrightarrow> (\<exists>t. gherkin it = Some t \<and> t \<noteq> []))
         \<and> (hasCondensed (component_metadata_of p cat it) \<longleftrightarrow> (\<exists>t. condensed it = Some t \<and> t \<noteq> []))
         \<and> (hasDeveloperNotes (component_metadata_of p cat it)
              \<longleftrightarrow> (\<exists>t. developerNotes it = Some t \<and> t \<noteq> []))
         \<and> (hasAndroidNotes (component_metadata_of p cat it)
              \<longleftrightarrow> (\<exists>t. androidDeveloperNotes it = Some t \<and> t \<noteq> []))
         \<and> (hasIOSNotes (component_metadata_of p cat it)
              \<longleftrightarrow> (\<exists>t. iosDeveloperNotes it = Some t \<and> t \<noteq> []))"
    by (simp add: component_metadata_of_def truthy_iff)
  obtain fs where fs: "getAvailableFormats collate s p n = Inr fs"
    and mem: "\<forall>f. format_name f \<in> set fs \<longleftrightarrow>
             (case getComponent_loop cats n of None \<Rightarrow> False
              | Some r \<Rightarrow> truthy (format_field f r))"
    using getAvailableFormats_loaded [OF assms, of collate n] by blast
  have g: "\<forall>f r. getComponent s p n = Inr r \<longrightarrow>
           (format_name f \<in> set fs \<longleftrightarrow> (\<exists>t. format_field f r = Some t \<and> t \<noteq> []))"
    using assms mem by (auto simp: getComponent_def truthy_iff split: option.splits)
  have h: "\<forall>f pre cat post before it after.
           cats = pre @ cat # post \<and> children cat = before @ it # after \<and> name it = n
           \<and> (\<forall>cat' \<in> set pre. \<forall>it' \<in> set (children cat'). name it' \<noteq> n)
           \<and> (\<forall>it' \<in> set before. name it' \<noteq> n)
           \<longrightarrow> (format_name f \<in> set fs \<longleftrightarrow> (\<exists>t. format_field f it = Some t \<and> t \<noteq> []))"
  proof (intro allI impI)
    fix f pre cat post before it after
    assume x: "cats = pre @ cat # post \<and> children cat = before @ it # after \<and> name it = n
           \<and> (\<forall>cat' \<in> set pre. \<forall>it' \<in> set (children cat'). name it' \<noteq> n)
           \<and> (\<forall>it' \<in> set before. name it' \<noteq> n)"
    then have "getComponent_loop cats n =
        Some (it\<lparr>categoryName := Some (cat_name cat), categoryLabel := Some (cat_label cat)\<rparr>)"
      using getComponent_loop_first_item [of pre n cat before it after post] by simp
    then have "format_name f \<in> set fs \<longleftrightarrow> truthy (format_field f it)"
      using mem by (simp add: format_field_annotated)
    then show "format_name f \<in> set fs \<longleftrightarrow> (\<exists>t. format_field f it = Some t \<and> t \<noteq> [])"
      by (simp add: truthy_iff)
  qed
  from l a b fl fs g h show ?thesis by blast
qed

theorem presence_flags_witness:
  "\<exists>ms fs. listComponents (\<lambda>x. x) example_loader Web None = Inr ms
     \<and> component_metadata_of Web example_controls example_button \<in> set ms
     \<and> hasGherkin (component_metadata_of Web example_controls example_button)
     \<and> \<not> hasDeveloperNotes (component_metadata_of Web example_controls example_button)
     \<and> \<not> hasCondensed (component_metadata_of Web example_controls example_button)
     \<and> getAvailableFormats (\<lambda>x. x) example_loader Web ''button'' = Inr fs
     \<and> ''gherkin'' \<in> set fs \<and> ''developerNotes'' \<notin> set fs \<and> ''condensed'' \<notin> set fs"
proof -
  have c: "content example_loader = Some example_corpus"
    and w: "platform_categories example_corpus Web = Some example_web"
    by (rule example_loader_fields)+
  have g: "getComponent example_loader Web ''button''
      = Inr (example_button\<lparr>categoryName := Some ''controls'', categoryLabel := Some ''Controls''\<rparr>)"
    by code_simp
  have m: "example_controls \<in> set example_web" "example_button \<in> set (children example_controls)"
    by (simp_all add: example_web_def example_controls_def)
  have f: "gherkin example_button = Some ''Given a button...''"
    "developerNotes example_button = Some []" "condensed example_button = None"
    by (simp_all add: example_button_def plain_item_def)
  have first: "example_web = [] @ example_controls # [example_forms]
      \<and> children example_controls = [example_checkbox] @ example_button # []
      \<and> name example_button = ''button''
      \<and> (\<forall>cat' \<in> set ([] :: content_category list). \<forall>it' \<in> set (children cat'). name it' \<noteq> ''button'')
      \<and> (\<forall>it' \<in> set [example_checkbox]. name it' \<noteq> ''button'')"
    by (simp add: example_web_def example_controls_def example_button_def example_checkbox_def
        plain_item_def)
  from presence_flags [OF c w, of "\<lambda>x. x" "''button''"]
  obtain ms fs where l: "listComponents (\<lambda>x. x) example_loader Web None = Inr ms"
    and b: "\<forall>cat \<in> set example_web. \<forall>it \<in> set (children cat). component_metadata_of Web cat it \<in> set ms"
    and fl: "\<forall>cat it.
           (hasGherkin (component_metadata_of Web cat it) \<longleftrightarrow> (\<exists>t. gherkin it = Some t \<and> t \<noteq> []))
         \<and> (hasCondensed (component_metadata_of Web cat it) \<longleftrightarrow> (\<exists>t. condensed it = Some t \<and> t \<noteq> []))
         \<and> (hasDeveloperNotes (component_metadata_of Web cat it)
              \<longleftrightarrow> (\<exists>t. developerNotes it = Some t \<and> t \<noteq> []))
         \<and> (hasAndroidNotes (component_metadata_of Web cat it)
              \<longleftrightarrow> (\<exists>t. androidDeveloperNotes it = Some t \<and> t \<noteq> []))
         \<and> (hasIOSNotes (component_metadata_of Web cat it)
              \<longleftrightarrow> (\<exists>t. iosDeveloperNotes it = Some t \<and> t \<noteq> []))"
    and fs: "getAvailableFormats (\<lambda>x. x) example_loader Web ''button'' = Inr fs"
    and av: "\<forall>f r. getComponent example_loader Web ''button'' = Inr r \<longrightarrow>
           (format_name f \<in> set fs \<longleftrightarrow> (\<exists>t. format_field f r = Some t \<and> t \<noteq> []))"
    and fi: "\<forall>f pre cat post before it after.
           example_web = pre @ cat # post \<and> children cat = before @ it # after \<and> name it = ''button''
           \<and> (\<forall>cat' \<in> set pre. \<forall>it' \<in> set (children cat'). name it' \<noteq> ''button'')
           \<and> (\<forall>it' \<in> set before. name it' \<noteq> ''button'')
           \<longrightarrow> (format_name f \<in> set fs \<longleftrightarrow> (\<exists>t. format_field f it = Some t \<and> t \<noteq> []))"
    apply (elim exE conjE)
    apply (rule that)
          apply assumption
         apply assumption
        apply assumption
       apply assumption
      apply assumption
     apply assumption
    done
  have 1: "component_metadata_of Web example_controls example_button \<in> set ms"
    using b m by blast
  have 2: "hasGherkin (component_metadata_of Web example_controls example_button)"
    "\<not> hasDeveloperNotes (component_metadata_of Web example_controls example_button)"
    "\<not> hasCondensed (component_metadata_of Web example_controls example_button)"
    using fl f by simp_all
  have 3: "''gherkin'' \<in> set fs"
    using av [rule_format, OF g, of Gherkin] f by simp
  have 4: "''developerNotes'' \<notin> set fs"
    using fi [rule_format, OF first, of DeveloperNotes] f by simp
  have 5: "''condensed'' \<notin> set fs"
    using fi [rule_format, OF first, of Condensed] f by simp
  from l 1 2 fs 3 4 5 show ?thesis by blast
qed

subsection \<open>Snippets\<close>

lemma length_example_lower: "length (example_lower t) = length t"
  by (simp add: example_lower_def)






text \<open>
  The index is a position in the lower-cased text. Under a case mapping that lengthens
  the text it can lie beyond the end of the text itself, and the snippet is then the
  bare marker: here the query \<open>x\<close> is found at position 120 of the lower-cased form of a
  text of 61 characters.
\<close>

lemma extractSnippet_beyond_text:
  "extractSnippet example_lower_doubling (replicate 60 CHR ''I'' @ ''x'') ''x'' 200 = ''...''"
  by code_simp



subsection \<open>Search\<close>











subsection \<open>Before and after initialization\<close>

lemma new_loader_queries:
  "listComponents collate new_loader p filt = Inl NotInitialized"
  "getCategories new_loader p = Inl NotInitialized"
  "getComponent new_loader p n = Inl NotInitialized"
  "getComponentContent new_loader p n f = Inl NotInitialized"
  "search toLowerCase fuse new_loader p q k = Inl NotInitialized"
  "getSimilarComponents collate fuse' new_loader p n l = Inl NotInitialized"
  "getAvailableFormats collate new_loader p n = Inr []"
  by (simp_all add: listComponents_def getCategories_def getComponent_def
      getComponentContent_def search_def getSimilarComponents_def getAvailableFormats_def
      new_loader_def)

text \<open>
  C4, as stated, fails for \<^verbatim>\<open>getAvailableFormats\<close>: on a loader that was never initialized
  it returns the empty list, not an error.
\<close>

theorem getAvailableFormats_uninitialized_counterexample:
  "getAvailableFormats (\<lambda>x. x) new_loader Web ''button'' = Inr []
   \<and> getAvailableFormats (\<lambda>x. x) new_loader Web ''button'' \<noteq> Inl NotInitialized"
  by (simp add: getAvailableFormats_def listComponents_def new_loader_def)

text \<open>
  C4, amended. On a loader that has not been initialized, \<^verbatim>\<open>listComponents\<close>,
  \<^verbatim>\<open>getCategories\<close>, \<^verbatim>\<open>getComponent\<close>, \<^verbatim>\<open>getComponentContent\<close>, \<^verbatim>\<open>search\<close> and
  \<^verbatim>\<open>getSimilarComponents\<close> fail with \<open>NotInitialized\<close>, for all their arguments, and
  \<^verbatim>\<open>getAvailableFormats\<close> returns the empty list.
\<close>

theorem uninitialized_queries_fail:
  "listComponents collate new_loader p filt = Inl NotInitialized
   \<and> getCategories new_loader p = Inl NotInitialized
   \<and> getComponent new_loader p n = Inl NotInitialized
   \<and> getComponentContent new_loader p n f = Inl NotInitialized
   \<and> search toLowerCase fuse new_loader p q k = Inl NotInitialized
   \<and> getSimilarComponents collate fuse' new_loader p n l = Inl NotInitialized
   \<and> getAvailableFormats collate new_loader p n = Inr []"
  by (simp add: new_loader_queries)

theorem uninitialized_queries_fail_witness:
  "listComponents (\<lambda>x. x) new_loader Web None = Inl NotInitialized
   \<and> getCategories new_loader Web = Inl NotInitialized
   \<and> getComponent new_loader Web ''button'' = Inl NotInitialized
   \<and> getComponentContent new_loader Web ''button'' Gherkin = Inl NotInitialized
   \<and> search example_lower example_fuse new_loader Web ''button'' 10 = Inl NotInitialized
   \<and> getSimilarComponents (\<lambda>x. x) example_fuse new_loader Web ''button'' 5 = Inl NotInitialized
   \<and> getAvailableFormats (\<lambda>x. x) new_loader Web ''button'' = Inr []"
  by (rule uninitialized_queries_fail)

text \<open>
  C6, as stated, fails. A document without its \<^verbatim>\<open>native\<close> key makes \<^verbatim>\<open>initialize\<close> fail
  while it builds the native index; by then the document is stored and the web index is
  built, and nothing undoes that. Afterwards \<^verbatim>\<open>getCategories\<close>, \<^verbatim>\<open>getComponent\<close> and
  \<^verbatim>\<open>listComponents\<close> answer for the web platform. And after any failure, also one of
  reading the file, \<^verbatim>\<open>getAvailableFormats\<close> returns a list.
\<close>

theorem initialize_failure_partial_state_counterexample:
  "fst (initialize (Parsed example_corpus_no_native) new_loader) = Inl LoadError
   \<and> getCategories example_loader_no_native Web = Inr [''controls'', ''forms'']
   \<and> getComponent example_loader_no_native Web ''checkbox''
       = Inr (example_checkbox\<lparr>categoryName := Some ''controls'', categoryLabel := Some ''Controls''\<rparr>)
   \<and> map_sum id (map m_name) (listComponents (\<lambda>x. x) example_loader_no_native Web None)
       = Inr [''button'', ''button'', ''checkbox'']
   \<and> getAvailableFormats (\<lambda>x. x) (fst (snd (initialize ReadFailed new_loader))) Web ''button'' = Inr []"
  by code_simp

text \<open>
  C6, amended. If \<^verbatim>\<open>initialize\<close> on a fresh loader fails because the document cannot be
  read or cannot be parsed, the loader is left as it was, with nothing stored: afterwards
  \<^verbatim>\<open>listComponents\<close>, \<^verbatim>\<open>getCategories\<close>, \<^verbatim>\<open>getComponent\<close>, \<^verbatim>\<open>getComponentContent\<close>,
  \<^verbatim>\<open>search\<close> and \<^verbatim>\<open>getSimilarComponents\<close> fail with \<open>NotInitialized\<close>, and
  \<^verbatim>\<open>getAvailableFormats\<close> returns the empty list.
\<close>

theorem initialize_read_failure:
  assumes "src = ReadFailed \<or> src = ParseFailed"
  shows "initialize src new_loader = (Inl LoadError, new_loader, [ReadFile])
   \<and> (let s = fst (snd (initialize src new_loader)) in
        listComponents collate s p filt = Inl NotInitialized
      \<and> getCategories s p = Inl NotInitialized
      \<and> getComponent s p n = Inl NotInitialized
      \<and> getComponentContent s p n f = Inl NotInitialized
      \<and> search toLowerCase fuse s p q k = Inl NotInitialized
      \<and> getSimilarComponents collate fuse' s p n l = Inl NotInitialized
      \<and> getAvailableFormats collate s p n = Inr [])"
proof -
  have "initialize src new_loader = (Inl LoadError, new_loader, [ReadFile])"
    using assms by (auto simp: initialize_def initialize_load_def new_loader_def)
  then show ?thesis
    by (simp add: new_loader_queries)
qed

theorem initialize_read_failure_witness:
  "initialize ReadFailed new_loader = (Inl LoadError, new_loader, [ReadFile])
   \<and> getComponent (fst (snd (initialize ReadFailed new_loader))) Web ''button'' = Inl NotInitialized
   \<and> getAvailableFormats (\<lambda>x. x) (fst (snd (initialize ReadFailed new_loader))) Web ''button'' = Inr []"
proof -
  have h: "ReadFailed = ReadFailed \<or> ReadFailed = ParseFailed"
    by simp
  note t = initialize_read_failure [OF h, of "\<lambda>x. x" Web None "''button''" Gherkin
      example_lower example_fuse "''q''" 10 example_fuse 5]
  have 1: "initialize ReadFailed new_loader = (Inl LoadError, new_loader, [ReadFile])"
    using t by (rule conjunct1)
  have 2: "getComponent (fst (snd (initialize ReadFailed new_loader))) Web ''button'' = Inl NotInitialized"
    and 3: "getAvailableFormats (\<lambda>x. x) (fst (snd (initialize ReadFailed new_loader))) Web ''button'' = Inr []"
    using t [THEN conjunct2] unfolding Let_def by blast+
  from 1 2 3 show ?thesis by blast
qed

lemma initialize_load_state_idem:
  "fst (snd (initialize_load src (fst (snd (initialize_load src s))))) = fst (snd (initialize_load src s))"
  by (cases src)
    (auto simp: initialize_load_def Let_def createSearchIndex_def split: sum.splits option.splits)

lemma initialize_success_indexed:
  "fst (initialize src s) = Inr () \<Longrightarrow> indexed (fst (snd (initialize src s)))"
  by (cases src)
    (auto simp: initialize_def initialize_load_def Let_def split: sum.splits if_splits)

lemma initialize_events:
  "length (filter (\<lambda>e. e = ReadFile) (snd (snd (initialize src s)))) \<le> 1
   \<and> length (filter (\<lambda>e. e = BuildIndex p) (snd (snd (initialize src s)))) \<le> 1"
  by (cases src; cases p)
    (auto simp: initialize_def initialize_load_def Let_def split: sum.splits if_splits)

text \<open>
  C5, as stated, fails. Two calls made on a fresh loader before either has resumed both
  pass the guard, and each reads the document and builds both indices: two reads and
  four index builds. And a call that follows a failed one reads the document again.
\<close>

theorem initialize_overlapped_counterexample:
  "snd (snd (initialize_overlapped (Parsed example_corpus) new_loader))
     = [ReadFile, ReadFile, BuildIndex Web, BuildIndex Native, BuildIndex Web, BuildIndex Native]
   \<and> \<not> length (filter (\<lambda>e. e = ReadFile)
          (snd (snd (initialize_overlapped (Parsed example_corpus) new_loader)))) \<le> 1
   \<and> snd (snd (initialize_sequential ReadFailed new_loader)) = [ReadFile, ReadFile]"
  by code_simp

text \<open>
  C5, amended. Calling \<^verbatim>\<open>initialize\<close> twice on the same document, the second call after
  the first or overlapping it, leaves the loader in the state that a single call leaves,
  so every query result afterwards is the same however often it was called. Once a call
  has succeeded, a later call returns at once, reads nothing and builds nothing, whatever
  has become of the document; so two calls in sequence of which the first succeeds make
  at most one read and at most one index build per platform.
\<close>

theorem initialize_idempotent:
  "fst (snd (initialize_sequential src s)) = fst (snd (initialize src s))
   \<and> fst (snd (initialize_overlapped src s)) = fst (snd (initialize src s))
   \<and> (fst (initialize src s) = Inr () \<longrightarrow>
        initialize src' (fst (snd (initialize src s))) = (Inr (), fst (snd (initialize src s)), [])
      \<and> snd (snd (initialize_sequential src s)) = snd (snd (initialize src s))
      \<and> length (filter (\<lambda>e. e = ReadFile) (snd (snd (initialize_sequential src s)))) \<le> 1
      \<and> length (filter (\<lambda>e. e = BuildIndex p) (snd (snd (initialize_sequential src s)))) \<le> 1)"
proof (intro conjI impI)
  show seq: "fst (snd (initialize_sequential src s)) = fst (snd (initialize src s))"
  proof (cases "indexed s")
    case True
    then show ?thesis
      by (simp add: initialize_sequential_def initialize_def)
  next
    case False
    obtain r1 s1 ev1 where l: "initialize_load src s = (r1, s1, ev1)"
      by (cases "initialize_load src s") auto
    have "fst (snd (initialize_load src s1)) = s1"
      using initialize_load_state_idem [of src s] l by simp
    then show ?thesis
      using False l
      by (auto simp: initialize_sequential_def initialize_def split: prod.splits)
  qed
  show "fst (snd (initialize_overlapped src s)) = fst (snd (initialize src s))"
  proof (cases "indexed s")
    case True
    then show ?thesis
      by (simp add: initialize_overlapped_def initialize_def)
  next
    case False
    obtain r1 s1 ev1 where l: "initialize_load src s = (r1, s1, ev1)"
      by (cases "initialize_load src s") auto
    have "fst (snd (initialize_load src s1)) = s1"
      using initialize_load_state_idem [of src s] l by simp
    then show ?thesis
      using False l
      by (auto simp: initialize_overlapped_def initialize_def split: prod.splits)
  qed
next
  assume ok: "fst (initialize src s) = Inr ()"
  then have ix: "indexed (fst (snd (initialize src s)))"
    by (rule initialize_success_indexed)
  then show "initialize src' (fst (snd (initialize src s))) = (Inr (), fst (snd (initialize src s)), [])"
    by (simp add: initialize_def)
  show ev: "snd (snd (initialize_sequential src s)) = snd (snd (initialize src s))"
  proof -
    obtain r1 s1 ev1 where f: "initialize src s = (r1, s1, ev1)"
      by (cases "initialize src s") auto
    then have "initialize src s1 = (Inr (), s1, [])"
      using ix by (simp add: initialize_def)
    with f show ?thesis
      by (simp add: initialize_sequential_def)
  qed
  show "length (filter (\<lambda>e. e = ReadFile) (snd (snd (initialize_sequential src s)))) \<le> 1"
    unfolding ev using initialize_events [of src s p] by simp
  show "length (filter (\<lambda>e. e = BuildIndex p) (snd (snd (initialize_sequential src s)))) \<le> 1"
    unfolding ev using initialize_events [of src s p] by simp
qed

theorem initialize_idempotent_witness:
  "fst (initialize (Parsed example_corpus) new_loader) = Inr ()
   \<and> initialize ReadFailed example_loader = (Inr (), example_loader, [])
   \<and> fst (snd (initialize_sequential (Parsed example_corpus) new_loader)) = example_loader
   \<and> fst (snd (initialize_overlapped (Parsed example_corpus) new_loader)) = example_loader
   \<and> snd (snd (initialize_sequential (Parsed example_corpus) new_loader))
       = [ReadFile, BuildIndex Web, BuildIndex Native]"
proof -
  have ok: "fst (initialize (Parsed example_corpus) new_loader) = Inr ()"
    by (simp add: initialize_def initialize_load_def new_loader_def createSearchIndex_def
        platform_categories_def example_corpus_def)
  have ev: "snd (snd (initialize (Parsed example_corpus) new_loader))
       = [ReadFile, BuildIndex Web, BuildIndex Native]"
    by (simp add: initialize_def initialize_load_def new_loader_def createSearchIndex_def
        platform_categories_def example_corpus_def)
  note t = initialize_idempotent [of "Parsed example_corpus" new_loader ReadFailed Web]
  have 1: "fst (snd (initialize_sequential (Parsed example_corpus) new_loader)) = example_loader"
    using t unfolding example_loader_def by (rule conjunct1)
  have 2: "fst (snd (initialize_overlapped (Parsed example_corpus) new_loader)) = example_loader"
    using t [THEN conjunct2, THEN conjunct1] unfolding example_loader_def .
  have 3: "initialize ReadFailed example_loader = (Inr (), example_loader, [])"
    and 4: "snd (snd (initialize_sequential (Parsed example_corpus) new_loader))
       = snd (snd (initialize (Parsed example_corpus) new_loader))"
    using t [THEN conjunct2, THEN conjunct2, rule_format, OF ok] unfolding example_loader_def
    by blast+
  from ok 1 2 3 4 ev show ?thesis by simp
qed

end
